theory Spec2Isabelle
  imports Main "HOL-Library.AList"
begin

section \<open>Values, documents and the two models of \<open>main.py\<close>\<close>

text \<open>
  A value held in a Python dict of the service: a \<open>str\<close>, \<open>None\<close>, or a
  \<open>bson.ObjectId\<close>. The type of object identifiers is a parameter: the
  service never looks inside one. A \<open>str\<close> is a list of characters; the
  handlers concatenate and compare strings and do nothing else with them.
\<close>

datatype 'oid pyval = Str string | PyNone | Oid 'oid

text \<open>A Python dict keeps insertion order: an association list.\<close>

type_synonym 'oid document = "(string \<times> 'oid pyval) list"

text \<open>A JSON object whose members are strings or \<open>null\<close>.\<close>

type_synonym json_object = "(string \<times> string option) list"

text \<open>
  The two pydantic models. \<open>Event\<close> has the fields of \<open>EventCreate\<close> and the
  field \<open>id\<close>, here \<open>ident\<close>.
\<close>

record EventCreate =
  title :: string
  description :: string
  date :: string
  location :: string
  category :: "string option"
  organizer :: "string option"

record Event = EventCreate +
  ident :: string

datatype error =
    HTTPException nat string
  | DriverError string
  | ValidationError
  | JSONDecodeError
  | TypeError
  | DuplicateKeyError

text \<open>
  What the imported libraries compute, taken as parameters:
  \<open>ObjectId s\<close> is the constructor \<open>bson.ObjectId(s)\<close> (\<open>None\<close> when it
  raises \<open>InvalidId\<close>), \<open>ObjectId_str\<close> is \<open>str\<close> of an object identifier,
  \<open>ObjectId_new n\<close> is the \<open>n\<close>-th identifier the driver generates, and
  \<open>isoformat t\<close> is \<open>datetime.utcnow().isoformat()\<close> read at time \<open>t\<close>.
\<close>

record 'oid library =
  ObjectId :: "string \<Rightarrow> 'oid option"
  ObjectId_str :: "'oid \<Rightarrow> string"
  ObjectId_new :: "nat \<Rightarrow> 'oid"
  isoformat :: "nat \<Rightarrow> string"

text \<open>
  \<open>ObjectId.is_valid\<close> of bson tries the constructor: it holds of the strings
  that the constructor accepts.
\<close>

definition is_valid :: "'oid library \<Rightarrow> string \<Rightarrow> bool" where
  "is_valid L oid = (ObjectId L oid \<noteq> None)"

text \<open>\<open>str(v)\<close> of a dict value.\<close>

fun str :: "'oid library \<Rightarrow> 'oid pyval \<Rightarrow> string" where
  "str L (Str s) = s"
| "str L PyNone = ''None''"
| "str L (Oid x) = ObjectId_str L x"

subsection \<open>Texts held by Redis\<close>

text \<open>
  The client is created with \<open>decode_responses=True\<close>: a value read from Redis
  is a text. The handlers observe such a text in two ways only, by its truth
  value and through \<open>json.loads\<close>; a text is represented by what these two
  return: the empty text, a text that \<open>json.loads\<close> reads as the given object,
  or any other text. \<open>json.dumps d\<close> is a text that \<open>json.loads\<close> reads back
  as \<open>d\<close>.
\<close>

datatype cached = Empty_text | Json_text json_object | Other_text

definition json_dumps :: "json_object \<Rightarrow> cached" where
  "json_dumps d = Json_text d"

fun json_loads :: "cached option \<Rightarrow> error + json_object" where
  "json_loads None = Inl TypeError"
| "json_loads (Some (Json_text d)) = Inr d"
| "json_loads (Some Empty_text) = Inl JSONDecodeError"
| "json_loads (Some Other_text) = Inl JSONDecodeError"

text \<open>The truth value of an \<open>Optional[str]\<close>.\<close>

fun truthy_text :: "cached option \<Rightarrow> bool" where
  "truthy_text None = False"
| "truthy_text (Some Empty_text) = False"
| "truthy_text (Some (Json_text d)) = True"
| "truthy_text (Some Other_text) = True"

text \<open>The truth value of an optional dict.\<close>

fun truthy :: "'oid document option \<Rightarrow> bool" where
  "truthy None = False"
| "truthy (Some d) = (d \<noteq> [])"

subsection \<open>The pydantic models\<close>

fun required_str :: "'oid pyval option \<Rightarrow> string option" where
  "required_str (Some (Str s)) = Some s"
| "required_str _ = None"

fun optional_str :: "'oid pyval option \<Rightarrow> string option option" where
  "optional_str None = Some None"
| "optional_str (Some PyNone) = Some None"
| "optional_str (Some (Str s)) = Some (Some s)"
| "optional_str (Some (Oid x)) = None"

text \<open>
  \<open>Event(**d)\<close>: five required \<open>str\<close> fields, two \<open>Optional[str]\<close> fields
  with default \<open>None\<close>; keys that are no field of the model are ignored.
\<close>

definition Event_of :: "'oid document \<Rightarrow> error + Event" where
  "Event_of d =
     (case (required_str (map_of d ''id''), required_str (map_of d ''title''),
            required_str (map_of d ''description''), required_str (map_of d ''date''),
            required_str (map_of d ''location''), optional_str (map_of d ''category''),
            optional_str (map_of d ''organizer'')) of
        (Some i, Some t, Some ds, Some dt, Some l, Some c, Some g) \<Rightarrow>
          Inr \<lparr>title = t, description = ds, date = dt, location = l,
               category = c, organizer = g, ident = i\<rparr>
      | _ \<Rightarrow> Inl ValidationError)"

text \<open>\<open>event.model_dump()\<close> of an \<open>Event\<close>, ready for \<open>json.dumps\<close>.\<close>

definition model_dump :: "Event \<Rightarrow> json_object" where
  "model_dump e =
     [(''id'', Some (ident e)), (''title'', Some (title e)),
      (''description'', Some (description e)), (''date'', Some (date e)),
      (''location'', Some (location e)), (''category'', category e),
      (''organizer'', organizer e)]"

text \<open>The keyword arguments that \<open>**json.loads(...)\<close> passes on.\<close>

fun of_json :: "string option \<Rightarrow> 'oid pyval" where
  "of_json None = PyNone"
| "of_json (Some s) = Str s"

definition kwargs :: "json_object \<Rightarrow> 'oid document" where
  "kwargs d = map (\<lambda>(k, v). (k, of_json v)) d"

text \<open>\<open>event.model_dump()\<close> of an \<open>EventCreate\<close>.\<close>

definition model_dump_create :: "EventCreate \<Rightarrow> 'oid document" where
  "model_dump_create e =
     [(''title'', Str (title e)), (''description'', Str (description e)),
      (''date'', Str (date e)), (''location'', Str (location e)),
      (''category'', of_json (category e)), (''organizer'', of_json (organizer e))]"

section \<open>The two services\<close>

text \<open>
  A call of a client library, as it leaves the process. Every call is logged,
  so that a theorem can say which calls a handler made and in what order.
\<close>

datatype 'oid call =
    Redis_get string
  | Redis_setex string nat cached
  | Redis_delete string
  | Redis_ping
  | Find_one string "'oid pyval"
  | Insert_one "'oid document"
  | Delete_one string "'oid pyval"
  | Db_ping

text \<open>
  The world outside the handlers: the Redis keys with their values and expiry
  times, the collection \<open>events_db.events\<close> in its natural order, the time in
  seconds, the number of object identifiers generated so far, the outcome of
  the calls to come (\<open>Some m\<close>: the call raises an exception whose text is
  \<open>m\<close>; no entry: the call goes through), and the log of the calls made.
\<close>

record 'oid world =
  redis :: "string \<rightharpoonup> cached \<times> nat option"
  events_collection :: "'oid document list"
  clock :: nat
  generated :: nat
  faults :: "string option list"
  calls :: "'oid call list"

definition CACHE_TTL :: nat where
  "CACHE_TTL = 3600"

text \<open>
  A call is logged, takes the next outcome off the list and returns the text of
  the exception it raises, if it raises one.
\<close>

fun raised :: "string option list \<Rightarrow> string option" where
  "raised [] = None"
| "raised (f # fs) = f"

definition after :: "'oid call \<Rightarrow> 'oid world \<Rightarrow> 'oid world" where
  "after c w = w\<lparr>faults := tl (faults w), calls := calls w @ [c]\<rparr>"

definition driver :: "'oid call \<Rightarrow> 'oid world \<Rightarrow> string option \<times> 'oid world" where
  "driver c w = (raised (faults w), after c w)"

subsection \<open>Redis\<close>

text \<open>A key whose expiry time has come is absent.\<close>

definition live :: "'oid world \<Rightarrow> string \<Rightarrow> cached option" where
  "live w k =
     (case redis w k of
        None \<Rightarrow> None
      | Some (v, None) \<Rightarrow> Some v
      | Some (v, Some t) \<Rightarrow> if clock w < t then Some v else None)"

definition redis_get :: "string \<Rightarrow> 'oid world \<Rightarrow> (error + cached option) \<times> 'oid world" where
  "redis_get k w =
     (case driver (Redis_get k) w of
        (Some m, w') \<Rightarrow> (Inl (DriverError m), w')
      | (None, w') \<Rightarrow> (Inr (live w' k), w'))"

definition redis_setex ::
  "string \<Rightarrow> nat \<Rightarrow> cached \<Rightarrow> 'oid world \<Rightarrow> (error + unit) \<times> 'oid world" where
  "redis_setex k ttl v w =
     (case driver (Redis_setex k ttl v) w of
        (Some m, w') \<Rightarrow> (Inl (DriverError m), w')
      | (None, w') \<Rightarrow> (Inr (), w'\<lparr>redis := (redis w')(k \<mapsto> (v, Some (clock w' + ttl)))\<rparr>))"

definition redis_delete :: "string \<Rightarrow> 'oid world \<Rightarrow> (error + unit) \<times> 'oid world" where
  "redis_delete k w =
     (case driver (Redis_delete k) w of
        (Some m, w') \<Rightarrow> (Inl (DriverError m), w')
      | (None, w') \<Rightarrow> (Inr (), w'\<lparr>redis := (redis w')(k := None)\<rparr>))"

definition redis_ping :: "'oid world \<Rightarrow> (error + unit) \<times> 'oid world" where
  "redis_ping w =
     (case driver Redis_ping w of
        (Some m, w') \<Rightarrow> (Inl (DriverError m), w')
      | (None, w') \<Rightarrow> (Inr (), w'))"

subsection \<open>MongoDB\<close>

text \<open>A filter \<open>{k: v}\<close> matches a document that holds \<open>v\<close> under \<open>k\<close>.\<close>

definition matches :: "string \<Rightarrow> 'oid pyval \<Rightarrow> 'oid document \<Rightarrow> bool" where
  "matches k v d = (map_of d k = Some v)"

fun delete_first :: "('a \<Rightarrow> bool) \<Rightarrow> 'a list \<Rightarrow> 'a list" where
  "delete_first P [] = []"
| "delete_first P (x # xs) = (if P x then xs else x # delete_first P xs)"

definition find_one ::
  "string \<Rightarrow> 'oid pyval \<Rightarrow> 'oid world \<Rightarrow> (error + 'oid document option) \<times> 'oid world" where
  "find_one k v w =
     (case driver (Find_one k v) w of
        (Some m, w') \<Rightarrow> (Inl (DriverError m), w')
      | (None, w') \<Rightarrow> (Inr (find (matches k v) (events_collection w')), w'))"

text \<open>\<open>delete_one\<close> returns \<open>deleted_count\<close>.\<close>

definition delete_one ::
  "string \<Rightarrow> 'oid pyval \<Rightarrow> 'oid world \<Rightarrow> (error + nat) \<times> 'oid world" where
  "delete_one k v w =
     (case driver (Delete_one k v) w of
        (Some m, w') \<Rightarrow> (Inl (DriverError m), w')
      | (None, w') \<Rightarrow>
          (case find (matches k v) (events_collection w') of
             None \<Rightarrow> (Inr 0, w')
           | Some d \<Rightarrow>
               (Inr 1, w'\<lparr>events_collection :=
                           delete_first (matches k v) (events_collection w')\<rparr>)))"

text \<open>
  \<open>insert_one\<close> gives a document without \<open>_id\<close> a generated one, in the
  caller's dict too, and returns \<open>inserted_id\<close> with that dict; the collection
  refuses a second document with the same \<open>_id\<close>.
\<close>

definition insert_one ::
  "'oid library \<Rightarrow> 'oid document \<Rightarrow> 'oid world \<Rightarrow>
     (error + 'oid pyval \<times> 'oid document) \<times> 'oid world" where
  "insert_one L d w =
     (let (v, d', w0) =
            (case map_of d ''_id'' of
               Some v \<Rightarrow> (v, d, w)
             | None \<Rightarrow> (Oid (ObjectId_new L (generated w)),
                        d @ [(''_id'', Oid (ObjectId_new L (generated w)))],
                        w\<lparr>generated := Suc (generated w)\<rparr>))
      in case driver (Insert_one d') w0 of
           (Some m, w') \<Rightarrow> (Inl (DriverError m), w')
         | (None, w') \<Rightarrow>
             if find (matches ''_id'' v) (events_collection w') \<noteq> None
             then (Inl DuplicateKeyError, w')
             else (Inr (v, d'), w'\<lparr>events_collection := events_collection w' @ [d']\<rparr>))"

definition db_command_ping :: "'oid world \<Rightarrow> (error + unit) \<times> 'oid world" where
  "db_command_ping w =
     (case driver Db_ping w of
        (Some m, w') \<Rightarrow> (Inl (DriverError m), w')
      | (None, w') \<Rightarrow> (Inr (), w'))"

section \<open>The handlers\<close>

text \<open>
  \<open>str(e)\<close> of a caught exception. \<open>health_check\<close> catches what the two
  pings raise, which are exceptions of the drivers; the other cases are never
  reached there.
\<close>

fun str_error :: "error \<Rightarrow> string" where
  "str_error (DriverError m) = m"
| "str_error (HTTPException c m) = m"
| "str_error ValidationError = ''ValidationError''"
| "str_error JSONDecodeError = ''JSONDecodeError''"
| "str_error TypeError = ''TypeError''"
| "str_error DuplicateKeyError = ''DuplicateKeyError''"

text \<open>The f-string \<open>f"event:{event_id}"\<close> of \<open>get_event\<close> and \<open>delete_event\<close>.\<close>

definition cache_key_of :: "string \<Rightarrow> string" where
  "cache_key_of event_id = ''event:'' @ event_id"

text \<open>
  The exception both handlers raise for a missing record:
  \<open>HTTPException(status_code=404, detail=f"Event with id {event_id} not found")\<close>.
\<close>

definition not_found :: "string \<Rightarrow> error" where
  "not_found event_id = HTTPException 404 (''Event with id '' @ event_id @ '' not found'')"

text \<open>Lines 120 to 131 of \<open>main.py\<close>: the two lookups of \<open>get_event\<close>.\<close>

definition lookup ::
  "'oid library \<Rightarrow> string \<Rightarrow> 'oid world \<Rightarrow>
     (error + 'oid document option) \<times> 'oid world" where
  "lookup L event_id w1 =
     (let (event_data, w2) =
            (if is_valid L event_id then
               (case ObjectId L event_id of
                  None \<Rightarrow> (None, w1)
                | Some oid \<Rightarrow>
                    (case find_one ''_id'' (Oid oid) w1 of
                       (Inl e, w') \<Rightarrow> (None, w')
                     | (Inr r, w') \<Rightarrow> (r, w')))
             else (None, w1))
      in if \<not> truthy event_data then find_one ''id'' (Str event_id) w2
         else (Inr event_data, w2))"

text \<open>Lines 137 and 138: \<open>_id\<close> is popped and its \<open>str\<close> stored under \<open>id\<close>.\<close>

definition normalize_record :: "'oid library \<Rightarrow> 'oid document \<Rightarrow> 'oid document" where
  "normalize_record L event_data =
     (case map_of event_data ''_id'' of
        Some v \<Rightarrow> AList.update ''id'' (Str (str L v)) (AList.delete ''_id'' event_data)
      | None \<Rightarrow> event_data)"

definition get_event ::
  "'oid library \<Rightarrow> string \<Rightarrow> 'oid world \<Rightarrow> (error + Event) \<times> 'oid world" where
  "get_event L event_id w =
     (let cache_key = cache_key_of event_id in
      case redis_get cache_key w of
        (Inl e, w1) \<Rightarrow> (Inl e, w1)
      | (Inr cached_event, w1) \<Rightarrow>
          (if truthy_text cached_event then
             (case json_loads cached_event of
                Inl e \<Rightarrow> (Inl e, w1)
              | Inr d \<Rightarrow> (Event_of (kwargs d :: 'oid document), w1))
           else
             (case lookup L event_id w1 of
                (Inl e, w3) \<Rightarrow> (Inl e, w3)
              | (Inr None, w3) \<Rightarrow>
                  (Inl (not_found event_id), w3)
              | (Inr (Some event_data), w3) \<Rightarrow>
                  (if event_data = [] then
                     (Inl (not_found event_id), w3)
                   else
                     (case Event_of (normalize_record L event_data) of
                        Inl e \<Rightarrow> (Inl e, w3)
                      | Inr event \<Rightarrow>
                          (case redis_setex cache_key CACHE_TTL
                                  (json_dumps (model_dump event)) w3 of
                             (Inl e, w4) \<Rightarrow> (Inl e, w4)
                           | (Inr u, w4) \<Rightarrow> (Inr event, w4)))))))"

definition create_event ::
  "'oid library \<Rightarrow> EventCreate \<Rightarrow> 'oid world \<Rightarrow> (error + Event) \<times> 'oid world" where
  "create_event L event w =
     (let event_dict = model_dump_create event;
          event_dict = AList.update ''created_at'' (Str (isoformat L (clock w))) event_dict
      in case insert_one L event_dict w of
           (Inl e, w1) \<Rightarrow> (Inl e, w1)
         | (Inr (inserted_id, event_dict), w1) \<Rightarrow>
             (Event_of (AList.update ''id'' (Str (str L inserted_id)) event_dict), w1))"

definition delete_event ::
  "'oid library \<Rightarrow> string \<Rightarrow> 'oid world \<Rightarrow>
     (error + (string \<times> string) list) \<times> 'oid world" where
  "delete_event L event_id w =
     (let cache_key = cache_key_of event_id in
      case redis_delete cache_key w of
        (Inl e, w1) \<Rightarrow> (Inl e, w1)
      | (Inr u, w1) \<Rightarrow>
          (case (case ObjectId L event_id of
                   None \<Rightarrow> delete_one ''id'' (Str event_id) w1
                 | Some oid \<Rightarrow>
                     (case delete_one ''_id'' (Oid oid) w1 of
                        (Inl e, w2) \<Rightarrow> delete_one ''id'' (Str event_id) w2
                      | (Inr n, w2) \<Rightarrow> (Inr n, w2))) of
             (Inl e, w3) \<Rightarrow> (Inl e, w3)
           | (Inr deleted_count, w3) \<Rightarrow>
               if deleted_count = 0 then
                 (Inl (not_found event_id), w3)
               else
                 (Inr [(''message'', ''Event '' @ event_id @ '' deleted successfully'')],
                  w3)))"

definition health_check ::
  "'oid world \<Rightarrow> (error + (string \<times> string) list) \<times> 'oid world" where
  "health_check w =
     (let redis_status = ''connected'';
          mongo_status = ''connected'';
          (redis_status, w1) =
             (case redis_ping w of
                (Inl e, w') \<Rightarrow> (''disconnected: '' @ str_error e, w')
              | (Inr u, w') \<Rightarrow> (redis_status, w'));
          (mongo_status, w2) =
             (case db_command_ping w1 of
                (Inl e, w') \<Rightarrow> (''disconnected: '' @ str_error e, w')
              | (Inr u, w') \<Rightarrow> (mongo_status, w'))
      in (Inr [(''status'', ''healthy''), (''redis'', redis_status),
               (''mongodb'', mongo_status)], w2))"

section \<open>Notions used to state the properties\<close>

text \<open>The calls made from one world to a later one, and those that go to the store.\<close>

definition made :: "'oid world \<Rightarrow> 'oid world \<Rightarrow> 'oid call list" where
  "made w w' = drop (length (calls w)) (calls w')"

fun store_call :: "'oid call \<Rightarrow> bool" where
  "store_call (Find_one k v) = True"
| "store_call (Insert_one d) = True"
| "store_call (Delete_one k v) = True"
| "store_call Db_ping = True"
| "store_call c = False"

text \<open>The records that match an identifier as a native one and as the string field.\<close>

definition by_native :: "'oid library \<Rightarrow> string \<Rightarrow> 'oid document list \<Rightarrow> 'oid document option" where
  "by_native L event_id ds =
     (case ObjectId L event_id of
        None \<Rightarrow> None
      | Some oid \<Rightarrow> find (matches ''_id'' (Oid oid)) ds)"

definition by_string :: "string \<Rightarrow> 'oid document list \<Rightarrow> 'oid document option" where
  "by_string event_id ds = find (matches ''id'' (Str event_id)) ds"

text \<open>
  The persisted shape of the specification: a native identifier, the fields of
  an event, and a creation timestamp.
\<close>

definition persisted_shape :: "'oid document \<Rightarrow> bool" where
  "persisted_shape d =
     ((case map_of d ''_id'' of Some (Oid x) \<Rightarrow> True | _ \<Rightarrow> False) \<and>
      required_str (map_of d ''title'') \<noteq> None \<and>
      required_str (map_of d ''description'') \<noteq> None \<and>
      required_str (map_of d ''date'') \<noteq> None \<and>
      required_str (map_of d ''location'') \<noteq> None \<and>
      optional_str (map_of d ''category'') \<noteq> None \<and>
      optional_str (map_of d ''organizer'') \<noteq> None \<and>
      required_str (map_of d ''created_at'') \<noteq> None)"

subsection \<open>An instance of the library, to run the handlers\<close>

text \<open>
  Object identifiers written as 24 hexadecimal digits and printed in lower
  case, generated by counting; a clock whose text ends in the seconds.
\<close>

definition lower :: "char \<Rightarrow> char" where
  "lower c = (case map_of (zip ''ABCDEF'' ''abcdef'') c of Some l \<Rightarrow> l | None \<Rightarrow> c)"

definition hexdigit :: "char \<Rightarrow> bool" where
  "hexdigit c = (lower c \<in> set ''0123456789abcdef'')"

fun hex :: "nat \<Rightarrow> nat \<Rightarrow> string" where
  "hex 0 n = []"
| "hex (Suc k) n = hex k (n div 16) @ [''0123456789abcdef'' ! (n mod 16)]"

definition sample_library :: "string library" where
  "sample_library =
     \<lparr>ObjectId = (\<lambda>s. if length s = 24 \<and> list_all hexdigit s then Some (map lower s)
                       else None),
      ObjectId_str = (\<lambda>x. x),
      ObjectId_new = hex 24,
      isoformat = (\<lambda>t. ''1970-01-01T00:00:'' @ hex 2 t)\<rparr>"

text \<open>
  A record as \<open>seed_db.py\<close> inserts it, and a world that holds this record
  and nothing in Redis.
\<close>

definition sample_record :: "string document" where
  "sample_record =
     [(''_id'', Oid ''650000000000000000000005''), (''id'', Str ''5''),
      (''title'', Str ''AI Workshop Bengaluru''),
      (''description'', Str ''Hands-on workshop on machine learning and AI''),
      (''date'', Str ''2025-11-01T10:00:00''),
      (''location'', Str ''Bengaluru, Karnataka''),
      (''category'', Str ''Technology''),
      (''organizer'', Str ''Indian Institute of Science''),
      (''created_at'', Str ''2025-10-01T08:00:00'')]"

definition sample_event :: Event where
  "sample_event =
     \<lparr>title = ''AI Workshop Bengaluru'',
      description = ''Hands-on workshop on machine learning and AI'',
      date = ''2025-11-01T10:00:00'', location = ''Bengaluru, Karnataka'',
      category = Some ''Technology'', organizer = Some ''Indian Institute of Science'',
      ident = ''650000000000000000000005''\<rparr>"

definition sample_world :: "string world" where
  "sample_world =
     \<lparr>redis = Map.empty, events_collection = [sample_record], clock = 0,
      generated = 0, faults = [], calls = []\<rparr>"

text \<open>The same world after \<open>get_event\<close> has looked up the identifier \<open>5\<close>.\<close>

definition cached_world :: "string world" where
  "cached_world =
     \<lparr>redis = [cache_key_of ''5'' \<mapsto> (json_dumps (model_dump sample_event), Some 3600)],
      events_collection = [sample_record], clock = 0, generated = 0, faults = [],
      calls = [Redis_get (cache_key_of ''5''), Find_one ''id'' (Str ''5''),
               Redis_setex (cache_key_of ''5'') 3600 (json_dumps (model_dump sample_event))]\<rparr>"

text \<open>
  The record that \<open>create_event\<close> hands to the collection, with the \<open>_id\<close> that
  \<open>insert_one\<close> adds, and the event it returns.
\<close>

definition new_record :: "'oid library \<Rightarrow> EventCreate \<Rightarrow> 'oid world \<Rightarrow> 'oid document" where
  "new_record L event w =
     AList.update ''created_at'' (Str (isoformat L (clock w))) (model_dump_create event) @
     [(''_id'', Oid (ObjectId_new L (generated w)))]"

definition created :: "'oid library \<Rightarrow> EventCreate \<Rightarrow> 'oid world \<Rightarrow> Event" where
  "created L event w =
     \<lparr>title = title event, description = description event, date = date event,
      location = location event, category = category event, organizer = organizer event,
      ident = ObjectId_str L (ObjectId_new L (generated w))\<rparr>"

text \<open>An input of \<open>create_event\<close>.\<close>

definition sample_create :: EventCreate where
  "sample_create =
     \<lparr>title = ''Music Festival'',
      description = ''Three-day outdoor music festival with top artists'',
      date = ''2025-08-20T14:00:00'', location = ''Austin, TX'',
      category = Some ''Music'', organizer = None\<rparr>"

text \<open>
  A record whose string field \<open>id\<close> has the form of an object identifier and
  is not its \<open>_id\<close>, and a world that holds this record alone.
\<close>

definition shadowed_record :: "string document" where
  "shadowed_record =
     [(''_id'', Oid ''650000000000000000000007''),
      (''id'', Str ''aaaaaaaaaaaaaaaaaaaaaaaa''),
      (''title'', Str ''Marathon 2025''),
      (''description'', Str ''Annual city marathon for runners of all levels''),
      (''date'', Str ''2025-09-10T07:00:00''), (''location'', Str ''Boston, MA''),
      (''category'', Str ''Sports''),
      (''organizer'', Str ''Boston Athletic Association''),
      (''created_at'', Str ''2025-10-01T08:00:00'')]"

definition shadowed_world :: "string world" where
  "shadowed_world =
     \<lparr>redis = Map.empty, events_collection = [shadowed_record], clock = 0,
      generated = 0, faults = [], calls = []\<rparr>"

section \<open>What a call leaves behind\<close>

lemma after_simps [simp]:
  "redis (after c w) = redis w"
  "events_collection (after c w) = events_collection w"
  "clock (after c w) = clock w"
  "generated (after c w) = generated w"
  "faults (after c w) = tl (faults w)"
  "calls (after c w) = calls w @ [c]"
  by (simp_all add: after_def)

lemma live_after [simp]: "live (after c w) k = live w k"
  by (simp add: live_def split: option.splits prod.splits)

lemma redis_get_eq:
  "redis_get k w =
     (case raised (faults w) of Some m \<Rightarrow> Inl (DriverError m) | None \<Rightarrow> Inr (live w k),
      after (Redis_get k) w)"
  by (simp add: redis_get_def driver_def split: option.splits)

lemma find_one_eq:
  "find_one k v w =
     (case raised (faults w) of
        Some m \<Rightarrow> Inl (DriverError m)
      | None \<Rightarrow> Inr (find (matches k v) (events_collection w)),
      after (Find_one k v) w)"
  by (simp add: find_one_def driver_def split: option.splits)

lemma redis_setex_eq:
  "redis_setex k ttl v w =
     (case raised (faults w) of
        Some m \<Rightarrow> (Inl (DriverError m), after (Redis_setex k ttl v) w)
      | None \<Rightarrow> (Inr (), (after (Redis_setex k ttl v) w)
                   \<lparr>redis := (redis w)(k \<mapsto> (v, Some (clock w + ttl)))\<rparr>))"
  by (simp add: redis_setex_def driver_def split: option.splits)

lemma redis_delete_eq:
  "redis_delete k w =
     (case raised (faults w) of
        Some m \<Rightarrow> (Inl (DriverError m), after (Redis_delete k) w)
      | None \<Rightarrow> (Inr (), (after (Redis_delete k) w)\<lparr>redis := (redis w)(k := None)\<rparr>))"
  by (simp add: redis_delete_def driver_def split: option.splits)

lemma delete_one_eq:
  "delete_one k v w =
     (case raised (faults w) of
        Some m \<Rightarrow> (Inl (DriverError m), after (Delete_one k v) w)
      | None \<Rightarrow>
          (case find (matches k v) (events_collection w) of
             None \<Rightarrow> (Inr 0, after (Delete_one k v) w)
           | Some d \<Rightarrow>
               (Inr 1, (after (Delete_one k v) w)
                  \<lparr>events_collection := delete_first (matches k v) (events_collection w)\<rparr>)))"
  by (simp add: delete_one_def driver_def split: option.splits)

lemma find_matches_nonempty: "find (matches k v) ds = Some d \<Longrightarrow> d \<noteq> []"
  by (auto simp: find_Some_iff matches_def)

lemma optional_str_of_json [simp]: "optional_str (Some (of_json x)) = Some x"
  by (cases x) simp_all

lemma Event_of_model_dump: "Event_of (kwargs (model_dump e) :: 'oid document) = Inr e"
  by (simp add: Event_of_def kwargs_def model_dump_def)

lemma lookup_invalid:
  "\<not> is_valid L event_id \<Longrightarrow> lookup L event_id w1 = find_one ''id'' (Str event_id) w1"
  by (simp add: lookup_def)

lemma lookup_valid:
  assumes "is_valid L event_id" and "ObjectId L event_id = Some oid"
  shows "lookup L event_id w1 =
     (case fst (find_one ''_id'' (Oid oid) w1) of
        Inr (Some d) \<Rightarrow> (Inr (Some d), after (Find_one ''_id'' (Oid oid)) w1)
      | _ \<Rightarrow> find_one ''id'' (Str event_id) (after (Find_one ''_id'' (Oid oid)) w1))"
  using assms
  by (auto simp: lookup_def find_one_eq split: option.splits dest: find_matches_nonempty)

lemma lookup_found: "lookup L event_id w1 = (Inr (Some d), w3) \<Longrightarrow> d \<noteq> []"
  by (cases "is_valid L event_id")
     (auto simp: lookup_invalid lookup_valid is_valid_def find_one_eq
           split: option.splits sum.splits dest: find_matches_nonempty)

lemma lookup_calls: "\<exists>cs. calls (snd (lookup L event_id w1)) = calls w1 @ cs"
  by (cases "is_valid L event_id")
     (auto simp: lookup_invalid lookup_valid is_valid_def find_one_eq
           split: option.splits sum.splits)

lemma get_event_miss:
  assumes "redis_get (cache_key_of event_id) w = (Inr cached_event, w1)"
    and "\<not> truthy_text cached_event"
  shows "get_event L event_id w =
     (case lookup L event_id w1 of
        (Inl e, w3) \<Rightarrow> (Inl e, w3)
      | (Inr None, w3) \<Rightarrow> (Inl (not_found event_id), w3)
      | (Inr (Some event_data), w3) \<Rightarrow>
          (case Event_of (normalize_record L event_data) of
             Inl e \<Rightarrow> (Inl e, w3)
           | Inr event \<Rightarrow>
               (case redis_setex (cache_key_of event_id) CACHE_TTL
                       (json_dumps (model_dump event)) w3 of
                  (Inl e, w4) \<Rightarrow> (Inl e, w4)
                | (Inr u, w4) \<Rightarrow> (Inr event, w4))))"
proof (cases "lookup L event_id w1")
  case (Pair r w3)
  show ?thesis
  proof (cases r)
    case (Inl e)
    with Pair assms show ?thesis by (simp add: get_event_def)
  next
    case (Inr x)
    show ?thesis
    proof (cases x)
      case None
      with Inr Pair assms show ?thesis by (simp add: get_event_def)
    next
      case (Some d)
      with Inr Pair have "d \<noteq> []" by (auto dest: lookup_found)
      with Some Inr Pair assms show ?thesis by (simp add: get_event_def)
    qed
  qed
qed

lemma redis_setex_calls:
  "redis_setex k ttl v w = (r, w') \<Longrightarrow> calls w' = calls w @ [Redis_setex k ttl v]"
  by (auto simp: redis_setex_eq split: option.splits)

lemma get_event_miss_calls:
  assumes "redis_get (cache_key_of event_id) w = (Inr cached_event, w1)"
    and "\<not> truthy_text cached_event"
  shows "filter store_call (made w (snd (get_event L event_id w))) =
         filter store_call (made w (snd (lookup L event_id w1)))"
proof -
  from assms(1) have w1: "w1 = after (Redis_get (cache_key_of event_id)) w"
    by (simp add: redis_get_eq)
  obtain cs where cs: "calls (snd (lookup L event_id w1)) = calls w1 @ cs"
    using lookup_calls by blast
  obtain r w3 where l: "lookup L event_id w1 = (r, w3)" by (cases "lookup L event_id w1")
  with cs w1 have c3: "calls w3 = calls w @ Redis_get (cache_key_of event_id) # cs" by simp
  show ?thesis
    using l c3
    by (auto simp: get_event_miss [OF assms] made_def dest!: redis_setex_calls
             split: sum.splits option.splits prod.splits)
qed


subsection \<open>The library instance on the sample identifiers\<close>

lemma sample_ObjectId:
  "ObjectId sample_library ''650000000000000000000005'' = Some ''650000000000000000000005''"
  "ObjectId sample_library ''5'' = None"
  by (simp_all add: sample_library_def hexdigit_def lower_def)


lemma sample_get_5: "get_event sample_library ''5'' sample_world = (Inr sample_event, cached_world)"
  by (simp add: get_event_def lookup_def redis_get_eq find_one_eq redis_setex_eq live_def
        is_valid_def sample_ObjectId sample_world_def cached_world_def after_def matches_def
        sample_record_def normalize_record_def Event_of_def sample_event_def CACHE_TTL_def
        sample_library_def Let_def)

section \<open>The read-through path of \<open>get_event\<close>\<close>

lemma get_event_hit:
  assumes "raised (faults w) = None"
    and "live w (cache_key_of event_id) = Some (Json_text d)"
  shows "get_event (L :: 'oid library) event_id w =
           (Event_of (kwargs d :: 'oid document), after (Redis_get (cache_key_of event_id)) w)"
  using assms by (simp add: get_event_def redis_get_eq)

lemma live_written:
  "clock w' = t \<Longrightarrow> live (w'\<lparr>redis := m(k \<mapsto> (v, Some (t + CACHE_TTL)))\<rparr>) k = Some v"
  by (simp add: live_def CACHE_TTL_def)

lemma get_event_ok_cached:
  assumes "get_event (L :: 'oid library) event_id w = (Inr e, w')"
  shows "\<exists>d. live w' (cache_key_of event_id) = Some (Json_text d) \<and>
             Event_of (kwargs d :: 'oid document) = Inr e"
proof (cases "raised (faults w)")
  case (Some m)
  with assms show ?thesis by (simp add: get_event_def redis_get_eq)
next
  case None
  then have g: "redis_get (cache_key_of event_id) w =
      (Inr (live w (cache_key_of event_id)), after (Redis_get (cache_key_of event_id)) w)"
    by (simp add: redis_get_eq)
  show ?thesis
  proof (cases "truthy_text (live w (cache_key_of event_id))")
    case True
    with assms g show ?thesis
      by (cases "live w (cache_key_of event_id)" rule: truthy_text.cases)
         (auto simp: get_event_def)
  next
    case False
    from assms show ?thesis
      unfolding get_event_miss [OF g False]
      by (auto simp: redis_setex_eq json_dumps_def live_written Event_of_model_dump
               split: prod.splits sum.splits option.splits)
  qed
qed

lemma Event_of_Inr:
  assumes "Event_of d = Inr e"
  shows "required_str (map_of d ''id'') = Some (ident e)"
    and "required_str (map_of d ''title'') = Some (title e)"
    and "required_str (map_of d ''description'') = Some (description e)"
    and "required_str (map_of d ''date'') = Some (date e)"
    and "required_str (map_of d ''location'') = Some (location e)"
    and "optional_str (map_of d ''category'') = Some (category e)"
    and "optional_str (map_of d ''organizer'') = Some (organizer e)"
  using assms by (auto simp: Event_of_def split: option.splits)

lemma lookup_frame:
  assumes "lookup L event_id w1 = (r, w3)"
  shows "clock w3 = clock w1" and "redis w3 = redis w1"
    and "events_collection w3 = events_collection w1" and "generated w3 = generated w1"
  using assms
  by (cases "is_valid L event_id";
      auto simp: lookup_invalid lookup_valid is_valid_def find_one_eq
           split: option.splits sum.splits)+

lemma normalize_record_id:
  "map_of d ''_id'' = Some v \<Longrightarrow> map_of (normalize_record L d) ''id'' = Some (Str (str L v))"
  "map_of d ''_id'' = Some v \<Longrightarrow> map_of (normalize_record L d) ''_id'' = None"
  "map_of d ''_id'' = None \<Longrightarrow> normalize_record L d = d"
  by (simp_all add: normalize_record_def update_conv' delete_conv')


text \<open>
  C1. When \<open>get_event\<close> misses the cache, the store is queried by object
  identifier only if \<open>ObjectId.is_valid\<close> accepts the identifier, and the query
  by the string field \<open>id\<close> is made exactly when the query by object identifier
  was not made, raised an exception, or returned no record: the queries sent to
  the store are the string query alone for an identifier that is not valid, the
  native query alone when it returns a record, and the native query followed by
  the string query otherwise.
\<close>

theorem get_event_store_queries:
  assumes "redis_get (cache_key_of event_id) w = (Inr cached_event, w1)"
    and "\<not> truthy_text cached_event"
  shows "filter store_call (made w (snd (get_event L event_id w))) =
    (case (if is_valid L event_id then ObjectId L event_id else None) of
       None \<Rightarrow> [Find_one ''id'' (Str event_id)]
     | Some oid \<Rightarrow>
         (case fst (find_one ''_id'' (Oid oid) w1) of
            Inr (Some d) \<Rightarrow> [Find_one ''_id'' (Oid oid)]
          | _ \<Rightarrow> [Find_one ''_id'' (Oid oid), Find_one ''id'' (Str event_id)]))"
proof -
  from assms(1) have w1: "w1 = after (Redis_get (cache_key_of event_id)) w"
    by (simp add: redis_get_eq)
  show ?thesis
  proof (cases "is_valid L event_id")
    case False
    then show ?thesis
      unfolding get_event_miss_calls [OF assms]
      by (simp add: lookup_invalid find_one_eq w1 made_def)
  next
    case True
    then obtain oid where oid: "ObjectId L event_id = Some oid"
      by (auto simp: is_valid_def)
    show ?thesis
      unfolding get_event_miss_calls [OF assms]
      by (simp add: lookup_valid [OF True oid] True oid
               find_one_eq w1 made_def split: option.splits sum.splits)
  qed
qed


theorem get_event_store_queries_witness:
  "redis_get (cache_key_of ''650000000000000000000005'')
      (sample_world\<lparr>faults := [None, Some ''timeout'']\<rparr>) =
     (Inr None, after (Redis_get (cache_key_of ''650000000000000000000005''))
                  (sample_world\<lparr>faults := [None, Some ''timeout'']\<rparr>)) \<and>
   \<not> truthy_text None \<and>
   filter store_call
     (made (sample_world\<lparr>faults := [None, Some ''timeout'']\<rparr>)
        (snd (get_event sample_library ''650000000000000000000005''
                (sample_world\<lparr>faults := [None, Some ''timeout'']\<rparr>)))) =
   [Find_one ''_id'' (Oid ''650000000000000000000005''),
    Find_one ''id'' (Str ''650000000000000000000005'')]"
  using get_event_store_queries [of "''650000000000000000000005''"
     "sample_world\<lparr>faults := [None, Some ''timeout'']\<rparr>" None
     "after (Redis_get (cache_key_of ''650000000000000000000005''))
        (sample_world\<lparr>faults := [None, Some ''timeout'']\<rparr>)"
     sample_library]
  by (simp add: redis_get_eq find_one_eq live_def sample_world_def is_valid_def sample_ObjectId)


text \<open>
  C2. When the key \<open>event:\<close> followed by the identifier holds a snapshot in Redis
  and the read goes through, \<open>get_event\<close> returns the event of the snapshot at
  once: the world it leaves differs from the one it found by the read of that
  key alone, with no call to the store and no change to Redis. Hence, once a
  \<open>get_event\<close> has returned an event, whether from the cache or after filling
  it, the next \<open>get_event\<close> for the same identifier returns that same event
  and makes the Redis read and nothing else.
\<close>

theorem get_event_cache_hit:
  "(raised (faults w) = None \<and>
      live w (cache_key_of event_id) = Some (json_dumps (model_dump e)) \<longrightarrow>
    get_event L event_id w = (Inr e, after (Redis_get (cache_key_of event_id)) w)) \<and>
   (get_event L event_id w = (Inr e, w') \<and> raised (faults w') = None \<longrightarrow>
    get_event (L :: 'oid library) event_id w' =
      (Inr e, after (Redis_get (cache_key_of event_id)) w'))"
proof (intro conjI impI)
  assume "raised (faults w) = None \<and>
      live w (cache_key_of event_id) = Some (json_dumps (model_dump e))"
  then show "get_event L event_id w = (Inr e, after (Redis_get (cache_key_of event_id)) w)"
    by (simp add: get_event_hit json_dumps_def Event_of_model_dump)
next
  assume a: "get_event L event_id w = (Inr e, w') \<and> raised (faults w') = None"
  then obtain d where "live w' (cache_key_of event_id) = Some (Json_text d)"
    and "Event_of (kwargs d :: 'oid document) = Inr e"
    using get_event_ok_cached [of L event_id w e w'] by blast
  with a show "get_event L event_id w' =
      (Inr e, after (Redis_get (cache_key_of event_id)) w')"
    by (simp add: get_event_hit)
qed

theorem get_event_cache_hit_witness:
  "raised (faults cached_world) = None \<and>
   live cached_world (cache_key_of ''5'') = Some (json_dumps (model_dump sample_event)) \<and>
   get_event sample_library ''5'' sample_world = (Inr sample_event, cached_world) \<and>
   get_event sample_library ''5'' cached_world =
     (Inr sample_event, after (Redis_get (cache_key_of ''5'')) cached_world) \<and>
   made cached_world (snd (get_event sample_library ''5'' cached_world)) =
     [Redis_get (cache_key_of ''5'')]"
  using get_event_cache_hit [where w = cached_world and event_id = "''5''"
        and e = sample_event and L = sample_library]
    get_event_cache_hit [where w = sample_world and event_id = "''5''"
        and e = sample_event and w' = cached_world and L = sample_library]
    sample_get_5
  by (simp add: cached_world_def live_def made_def)

lemma get_event_miss_found:
  assumes "redis_get (cache_key_of event_id) w = (Inr cached_event, wr)"
    and "\<not> truthy_text cached_event"
    and "lookup L event_id wr = (Inr (Some event_data), ws)"
    and "Event_of (normalize_record L event_data) = Inr event"
    and "raised (faults ws) = None"
  shows "get_event L event_id w =
      (Inr event, (after (Redis_setex (cache_key_of event_id) 3600
                          (json_dumps (model_dump event))) ws)
                  \<lparr>redis := (redis w)(cache_key_of event_id \<mapsto>
                               (json_dumps (model_dump event), Some (clock w + 3600)))\<rparr>)"
proof -
  from assms(1) have wr: "wr = after (Redis_get (cache_key_of event_id)) w"
    by (simp add: redis_get_eq)
  from lookup_frame [OF assms(3)] wr have fr: "clock ws = clock w" "redis ws = redis w"
    by simp_all
  show ?thesis
    using assms(3-5) fr
    by (simp add: get_event_miss [OF assms(1,2)] redis_setex_eq CACHE_TTL_def)
qed

lemma normalized_ident:
  assumes "Event_of (normalize_record L event_data) = Inr event"
  shows "case map_of event_data ''_id'' of
              Some v \<Rightarrow> ident event = str L v \<and>
                        map_of (normalize_record L event_data) ''_id'' = None
            | None \<Rightarrow> normalize_record L event_data = event_data"
  using Event_of_Inr(1) [OF assms]
  by (auto simp: normalize_record_id split: option.splits)

text \<open>
  C3. When \<open>get_event\<close> misses the cache and the lookups find a record that
  \<open>Event\<close> accepts, and Redis takes the write, the event is returned and its
  snapshot is stored under the key of the requested identifier with an expiry
  of 3600 seconds from the time of the request: the entry is read back before
  that time and not from it on, and a \<open>get_event\<close> that reads it back returns
  the event and leaves Redis, the expiry included, as it is. A record with
  \<open>_id\<close> gives the event the \<open>str\<close> of that value as identifier and loses the
  \<open>_id\<close> field.
\<close>

theorem get_event_populates_cache:
  assumes "redis_get (cache_key_of event_id) w = (Inr cached_event, wr)"
    and "\<not> truthy_text cached_event"
    and "lookup L event_id wr = (Inr (Some event_data), ws)"
    and "Event_of (normalize_record L event_data) = Inr event"
    and "raised (faults ws) = None"
  shows "\<exists>w'. get_event L event_id w = (Inr event, w') \<and>
           w' = (after (Redis_setex (cache_key_of event_id) 3600
                          (json_dumps (model_dump event))) ws)
                  \<lparr>redis := (redis w)(cache_key_of event_id \<mapsto>
                               (json_dumps (model_dump event), Some (clock w + 3600)))\<rparr> \<and>
           (\<forall>t. live (w'\<lparr>clock := t\<rparr>) (cache_key_of event_id) =
                  (if t < clock w + 3600 then Some (json_dumps (model_dump event)) else None)) \<and>
           (\<forall>t. t < clock w + 3600 \<and> raised (faults w') = None \<longrightarrow>
                  get_event L event_id (w'\<lparr>clock := t\<rparr>) =
                    (Inr event, after (Redis_get (cache_key_of event_id)) (w'\<lparr>clock := t\<rparr>))) \<and>
           (case map_of event_data ''_id'' of
              Some v \<Rightarrow> ident event = str L v \<and>
                        map_of (normalize_record L event_data) ''_id'' = None
            | None \<Rightarrow> normalize_record L event_data = event_data)"
proof -
  let ?k = "cache_key_of event_id"
  let ?w' = "(after (Redis_setex ?k 3600 (json_dumps (model_dump event))) ws)
                  \<lparr>redis := (redis w)(?k \<mapsto>
                               (json_dumps (model_dump event), Some (clock w + 3600)))\<rparr>"
  have g: "get_event L event_id w = (Inr event, ?w')"
    by (rule get_event_miss_found [OF assms])
  have l: "live (?w'\<lparr>clock := t\<rparr>) ?k =
      (if t < clock w + 3600 then Some (json_dumps (model_dump event)) else None)" for t
    by (simp add: live_def)
  have h: "get_event L event_id (?w'\<lparr>clock := t\<rparr>) =
      (Inr event, after (Redis_get ?k) (?w'\<lparr>clock := t\<rparr>))"
    if "t < clock w + 3600" "raised (faults ?w') = None" for t
  proof -
    from that(1) l [of t]
    have "live (?w'\<lparr>clock := t\<rparr>) ?k = Some (Json_text (model_dump event))"
      by (simp add: json_dumps_def)
    moreover from that(2) have "raised (faults (?w'\<lparr>clock := t\<rparr>)) = None" by simp
    ultimately show ?thesis
      by (simp only: get_event_hit Event_of_model_dump)
  qed
  from g l h normalized_ident [OF assms(4)] show ?thesis by blast
qed

theorem get_event_populates_cache_witness:
  "redis_get (cache_key_of ''5'') sample_world =
     (Inr None, after (Redis_get (cache_key_of ''5'')) sample_world) \<and>
   \<not> truthy_text None \<and>
   lookup sample_library ''5'' (after (Redis_get (cache_key_of ''5'')) sample_world) =
     (Inr (Some sample_record),
      after (Find_one ''id'' (Str ''5'')) (after (Redis_get (cache_key_of ''5'')) sample_world)) \<and>
   Event_of (normalize_record sample_library sample_record) = Inr sample_event \<and>
   get_event sample_library ''5'' sample_world = (Inr sample_event, cached_world) \<and>
   live (cached_world\<lparr>clock := 3599\<rparr>) (cache_key_of ''5'') =
     Some (json_dumps (model_dump sample_event)) \<and>
   live (cached_world\<lparr>clock := 3600\<rparr>) (cache_key_of ''5'') = None \<and>
   ident sample_event = ''650000000000000000000005''"
  using get_event_populates_cache [where event_id = "''5''" and w = sample_world
      and cached_event = None and wr = "after (Redis_get (cache_key_of ''5'')) sample_world"
      and L = sample_library and event_data = sample_record
      and ws = "after (Find_one ''id'' (Str ''5''))
                  (after (Redis_get (cache_key_of ''5'')) sample_world)"
      and event = sample_event]
  by (simp add: redis_get_eq lookup_def find_one_eq live_def is_valid_def sample_ObjectId
        sample_world_def cached_world_def after_def matches_def sample_record_def
        normalize_record_def Event_of_def sample_event_def sample_library_def)

lemma lookup_no_faults:
  assumes "faults wr = []"
  shows "\<exists>ws. lookup L event_id wr =
           (Inr (case by_native L event_id (events_collection wr) of
                   Some d \<Rightarrow> Some d
                 | None \<Rightarrow> by_string event_id (events_collection wr)), ws) \<and>
              faults ws = []"
proof (cases "is_valid L event_id")
  case False
  with assms show ?thesis
    by (simp add: lookup_invalid find_one_eq by_native_def by_string_def is_valid_def)
next
  case True
  then obtain oid where oid: "ObjectId L event_id = Some oid"
    by (auto simp: is_valid_def)
  with assms show ?thesis
    by (auto simp: lookup_valid [OF True oid] find_one_eq by_native_def by_string_def
             split: option.splits)
qed

lemma find_in_set: "find P xs = Some x \<Longrightarrow> x \<in> set xs"
  by (auto simp: find_Some_iff)

lemma persisted_shape_Event:
  assumes "persisted_shape d"
  shows "\<exists>e. Event_of (normalize_record L d) = Inr e"
proof -
  from assms obtain x where x: "map_of d ''_id'' = Some (Oid x)"
    by (auto simp: persisted_shape_def split: option.splits pyval.splits)
  have n: "normalize_record L d =
             AList.update ''id'' (Str (ObjectId_str L x)) (AList.delete ''_id'' d)"
    using x by (simp add: normalize_record_def)
  from assms show ?thesis
    unfolding n persisted_shape_def Event_of_def
    by (auto simp: update_conv' delete_conv')
qed

text \<open>
  C4. With both services reachable: when Redis holds nothing readable under the
  key and no record matches the identifier, neither by \<open>_id\<close> nor by the
  string field \<open>id\<close>, \<open>get_event\<close> fails with the 404 exception whose detail
  names the identifier. In every other case it returns an event, given that an
  entry under the key is a snapshot of an event and that the records of the
  collection have the persisted shape.
\<close>

theorem get_event_not_found:
  assumes "faults w = []"
  shows "(\<not> truthy_text (live w (cache_key_of event_id)) \<and>
          by_native L event_id (events_collection w) = None \<and>
          by_string event_id (events_collection w) = None \<longrightarrow>
          fst (get_event L event_id w) =
            Inl (HTTPException 404 (''Event with id '' @ event_id @ '' not found''))) \<and>
         ((\<forall>c. live w (cache_key_of event_id) = Some c \<longrightarrow>
                (\<exists>e. c = json_dumps (model_dump e))) \<and>
          (\<forall>d \<in> set (events_collection w). persisted_shape d) \<and>
          \<not> (live w (cache_key_of event_id) = None \<and>
             by_native L event_id (events_collection w) = None \<and>
             by_string event_id (events_collection w) = None) \<longrightarrow>
          (\<exists>e. fst (get_event L event_id w) = Inr e))"
proof (intro conjI impI)
  let ?k = "cache_key_of event_id"
  let ?wr = "after (Redis_get ?k) w"
  have g: "redis_get ?k w = (Inr (live w ?k), ?wr)"
    using assms by (simp add: redis_get_eq)
  have fr: "faults ?wr = []" "events_collection ?wr = events_collection w"
    using assms by simp_all
  obtain ws where l: "lookup L event_id ?wr =
           (Inr (case by_native L event_id (events_collection w) of
                   Some d \<Rightarrow> Some d
                 | None \<Rightarrow> by_string event_id (events_collection w)), ws)"
      and fs: "faults ws = []"
    using lookup_no_faults [OF fr(1), of L event_id] unfolding fr(2) by auto
  {
    assume a: "\<not> truthy_text (live w ?k) \<and>
          by_native L event_id (events_collection w) = None \<and>
          by_string event_id (events_collection w) = None"
    then have "\<not> truthy_text (live w ?k)" by simp
    from get_event_miss [OF g this, of L] l a
    show "fst (get_event L event_id w) =
            Inl (HTTPException 404 (''Event with id '' @ event_id @ '' not found''))"
      by (simp add: not_found_def)
  }
  {
    assume a: "(\<forall>c. live w ?k = Some c \<longrightarrow> (\<exists>e. c = json_dumps (model_dump e))) \<and>
          (\<forall>d \<in> set (events_collection w). persisted_shape d) \<and>
          \<not> (live w ?k = None \<and>
             by_native L event_id (events_collection w) = None \<and>
             by_string event_id (events_collection w) = None)"
    show "\<exists>e. fst (get_event L event_id w) = Inr e"
    proof (cases "live w ?k")
      case (Some c)
      with a obtain e where "c = json_dumps (model_dump e)" by blast
      with Some assms show ?thesis
        by (simp add: get_event_hit json_dumps_def Event_of_model_dump)
    next
      case None
      then have m: "\<not> truthy_text (live w ?k)" by simp
      from None a have "\<exists>d. (case by_native L event_id (events_collection w) of
                   Some d \<Rightarrow> Some d
                 | None \<Rightarrow> by_string event_id (events_collection w)) = Some d"
        by (cases "by_native L event_id (events_collection w)") auto
      then obtain d where
        d: "(case by_native L event_id (events_collection w) of
                   Some d \<Rightarrow> Some d
                 | None \<Rightarrow> by_string event_id (events_collection w)) = Some d"
        by blast
      then have "d \<in> set (events_collection w)"
        by (auto simp: by_native_def by_string_def split: option.splits dest: find_in_set)
      with a have "persisted_shape d" by blast
      then obtain e where e: "Event_of (normalize_record L d) = Inr e"
        using persisted_shape_Event by blast
      from get_event_miss [OF g m, of L] l d e fs show ?thesis
        by (simp add: redis_setex_eq)
    qed
  }
qed


theorem get_event_not_found_witness:
  "faults sample_world = [] \<and>
   \<not> truthy_text (live sample_world (cache_key_of ''6'')) \<and>
   by_native sample_library ''6'' (events_collection sample_world) = None \<and>
   by_string ''6'' (events_collection sample_world) = None \<and>
   fst (get_event sample_library ''6'' sample_world) =
     Inl (HTTPException 404 ''Event with id 6 not found'') \<and>
   persisted_shape sample_record \<and>
   by_string ''5'' (events_collection sample_world) = Some sample_record \<and>
   (\<exists>e. fst (get_event sample_library ''5'' sample_world) = Inr e) \<and>
   live cached_world (cache_key_of ''5'') = Some (json_dumps (model_dump sample_event)) \<and>
   (\<exists>e. fst (get_event sample_library ''5'' cached_world) = Inr e)"
proof -
  have w: "faults sample_world = []" "faults cached_world = []"
    by (simp_all add: sample_world_def cached_world_def)
  have n6: "\<not> truthy_text (live sample_world (cache_key_of ''6'')) \<and>
      by_native sample_library ''6'' (events_collection sample_world) = None \<and>
      by_string ''6'' (events_collection sample_world) = None"
    by (simp add: live_def sample_world_def by_native_def by_string_def matches_def
          sample_record_def sample_library_def)
  have p: "persisted_shape sample_record"
    by (simp add: persisted_shape_def sample_record_def)
  have s5: "by_string ''5'' (events_collection sample_world) = Some sample_record"
    by (simp add: sample_world_def by_string_def matches_def sample_record_def)
  have l5: "live sample_world (cache_key_of ''5'') = None"
    by (simp add: live_def sample_world_def)
  have c5: "live cached_world (cache_key_of ''5'') = Some (json_dumps (model_dump sample_event))"
    by (simp add: live_def cached_world_def)
  have a: "fst (get_event sample_library ''6'' sample_world) =
      Inl (HTTPException 404 ''Event with id 6 not found'')"
    using get_event_not_found [OF w(1), of "''6''" sample_library] n6 by simp
  have b: "\<exists>e. fst (get_event sample_library ''5'' sample_world) = Inr e"
    using get_event_not_found [OF w(1), of "''5''" sample_library] p s5 l5
    by (simp add: sample_world_def)
  have c: "\<exists>e. fst (get_event sample_library ''5'' cached_world) = Inr e"
    using get_event_not_found [OF w(2), of "''5''" sample_library] p c5
    by (auto simp: cached_world_def)
  from w n6 p s5 c5 a b c show ?thesis by simp
qed

text \<open>
  C9. When \<open>get_event\<close> finds a record by the string field \<open>id\<close> and the
  record has an \<open>_id\<close>, the event returned has the \<open>str\<close> of that \<open>_id\<close> as
  its identifier, and the snapshot stored under the key of the requested
  identifier carries that identifier too. When the \<open>_id\<close> is an object
  identifier that the constructor reads back from its \<open>str\<close>, the identifier
  of the event differs from the requested one.
\<close>

theorem get_event_fallback_id:
  assumes "faults w = []"
    and "\<not> truthy_text (live w (cache_key_of event_id))"
    and "by_native L event_id (events_collection w) = None"
    and "by_string event_id (events_collection w) = Some event_data"
    and "map_of event_data ''_id'' = Some v"
    and "Event_of (normalize_record L event_data) = Inr event"
  shows "\<exists>w'. get_event L event_id w = (Inr event, w') \<and>
           ident event = str L v \<and>
           redis w' (cache_key_of event_id) =
             Some (json_dumps (model_dump event), Some (clock w + 3600)) \<and>
           map_of (model_dump event) ''id'' = Some (Some (str L v)) \<and>
           ((\<exists>x. v = Oid x \<and> ObjectId L (ObjectId_str L x) = Some x) \<longrightarrow>
              ident event \<noteq> event_id)"
proof -
  let ?k = "cache_key_of event_id"
  let ?wr = "after (Redis_get ?k) w"
  have g: "redis_get ?k w = (Inr (live w ?k), ?wr)"
    using assms(1) by (simp add: redis_get_eq)
  have fr: "faults ?wr = []" "events_collection ?wr = events_collection w"
    using assms(1) by simp_all
  obtain ws where l: "lookup L event_id ?wr = (Inr (Some event_data), ws)"
      and fs: "faults ws = []"
    using lookup_no_faults [OF fr(1), of L event_id] assms(3,4) unfolding fr(2) by auto
  then have rf: "raised (faults ws) = None" by simp
  from get_event_miss_found [OF g assms(2) l assms(6) rf]
  have a: "\<exists>w'. get_event L event_id w = (Inr event, w') \<and>
           redis w' (cache_key_of event_id) =
             Some (json_dumps (model_dump event), Some (clock w + 3600))"
    by simp
  from normalized_ident [OF assms(6)] assms(5) have i: "ident event = str L v"
    by simp
  have m: "map_of (model_dump event) ''id'' = Some (Some (str L v))"
    using i by (simp add: model_dump_def)
  have d: "ident event \<noteq> event_id"
    if "\<exists>x. v = Oid x \<and> ObjectId L (ObjectId_str L x) = Some x"
  proof
    assume e: "ident event = event_id"
    from that obtain x where x: "v = Oid x" "ObjectId L (ObjectId_str L x) = Some x"
      by blast
    with e i have "ObjectId L event_id = Some x" by simp
    with assms(3) have n: "find (matches ''_id'' (Oid x)) (events_collection w) = None"
      by (simp add: by_native_def)
    from assms(4) have "event_data \<in> set (events_collection w)"
      by (auto simp: by_string_def dest: find_in_set)
    with n assms(5) x show False
      by (auto simp: find_None_iff matches_def)
  qed
  from a i m d show ?thesis by blast
qed

theorem get_event_fallback_id_witness:
  "faults sample_world = [] \<and>
   \<not> truthy_text (live sample_world (cache_key_of ''5'')) \<and>
   by_native sample_library ''5'' (events_collection sample_world) = None \<and>
   by_string ''5'' (events_collection sample_world) = Some sample_record \<and>
   map_of sample_record ''_id'' = Some (Oid ''650000000000000000000005'') \<and>
   Event_of (normalize_record sample_library sample_record) = Inr sample_event \<and>
   ObjectId sample_library (ObjectId_str sample_library ''650000000000000000000005'') =
     Some ''650000000000000000000005'' \<and>
   (\<exists>w'. get_event sample_library ''5'' sample_world = (Inr sample_event, w') \<and>
      redis w' (cache_key_of ''5'') =
        Some (json_dumps (model_dump sample_event), Some 3600)) \<and>
   map_of (model_dump sample_event) ''id'' = Some (Some ''650000000000000000000005'') \<and>
   ident sample_event = ''650000000000000000000005'' \<and>
   ident sample_event \<noteq> ''5''"
proof -
  have h: "faults sample_world = []"
    "\<not> truthy_text (live sample_world (cache_key_of ''5''))"
    "by_native sample_library ''5'' (events_collection sample_world) = None"
    "by_string ''5'' (events_collection sample_world) = Some sample_record"
    "map_of sample_record ''_id'' = Some (Oid ''650000000000000000000005'')"
    "Event_of (normalize_record sample_library sample_record) = Inr sample_event"
    by (simp_all add: live_def sample_world_def by_native_def by_string_def matches_def
          sample_record_def sample_ObjectId normalize_record_def Event_of_def
          sample_event_def sample_library_def)
  have r: "ObjectId sample_library (ObjectId_str sample_library ''650000000000000000000005'') =
     Some ''650000000000000000000005''"
    by (simp add: sample_library_def hexdigit_def lower_def)
  from get_event_fallback_id [OF h] h r show ?thesis
    by (auto simp: sample_world_def sample_library_def)
qed

section \<open>Deletion\<close>

lemma delete_event_eq:
  "delete_event L event_id w =
     (case raised (faults w) of
        Some m \<Rightarrow> (Inl (DriverError m), after (Redis_delete (cache_key_of event_id)) w)
      | None \<Rightarrow>
          (let wc = (after (Redis_delete (cache_key_of event_id)) w)
                      \<lparr>redis := (redis w)(cache_key_of event_id := None)\<rparr>;
               (r, wd) =
                 (case ObjectId L event_id of
                    None \<Rightarrow> delete_one ''id'' (Str event_id) wc
                  | Some oid \<Rightarrow>
                      (case delete_one ''_id'' (Oid oid) wc of
                         (Inl e, w2) \<Rightarrow> delete_one ''id'' (Str event_id) w2
                       | (Inr n, w2) \<Rightarrow> (Inr n, w2)))
           in case r of
                Inl e \<Rightarrow> (Inl e, wd)
              | Inr n \<Rightarrow>
                  if n = 0 then (Inl (not_found event_id), wd)
                  else (Inr [(''message'', ''Event '' @ event_id @ '' deleted successfully'')],
                        wd)))"
  by (simp add: delete_event_def redis_delete_eq Let_def split: option.splits prod.splits sum.splits)

lemma delete_one_shape:
  "\<exists>r w'. delete_one k v w = (r, w') \<and> calls w' = calls w @ [Delete_one k v] \<and>
      redis w' = redis w \<and>
      (faults w = [] \<and> find (matches k v) (events_collection w) = None \<longrightarrow>
         r = Inr 0 \<and> events_collection w' = events_collection w \<and> faults w' = [])"
  by (auto simp: delete_one_eq split: option.splits)

text \<open>
  C6. \<open>delete_event\<close> deletes the key of the identifier from Redis as its first
  call, whatever the store holds; every call after it goes to the store. When
  that first call goes through, the key is absent from Redis afterwards,
  whatever the outcome of the handler. For an identifier that no record
  matches, with both services reachable, the handler fails with the 404
  exception, the collection is unchanged, and Redis is unchanged when it held
  nothing under the key.
\<close>

theorem delete_event_invalidates_first:
  "\<exists>r w' cs. delete_event L event_id w = (r, w') \<and>
      made w w' = Redis_delete (cache_key_of event_id) # cs \<and> list_all store_call cs \<and>
      (raised (faults w) = None \<longrightarrow> redis w' = (redis w)(cache_key_of event_id := None)) \<and>
      (faults w = [] \<and> by_native L event_id (events_collection w) = None \<and>
       by_string event_id (events_collection w) = None \<longrightarrow>
         r = Inl (HTTPException 404 (''Event with id '' @ event_id @ '' not found'')) \<and>
         events_collection w' = events_collection w \<and>
         (redis w (cache_key_of event_id) = None \<longrightarrow> redis w' = redis w))"
proof (cases "raised (faults w)")
  case (Some m)
  then have "faults w \<noteq> []" by auto
  with Some show ?thesis by (simp add: delete_event_eq made_def)
next
  case None
  let ?k = "cache_key_of event_id"
  let ?wc = "(after (Redis_delete ?k) w)\<lparr>redis := (redis w)(?k := None)\<rparr>"
  have c: "calls ?wc = calls w @ [Redis_delete ?k]" "redis ?wc = (redis w)(?k := None)"
    "events_collection ?wc = events_collection w" "faults ?wc = tl (faults w)"
    by simp_all
  obtain rs ws where s: "delete_one ''id'' (Str event_id) ?wc = (rs, ws)"
    and ss: "calls ws = calls ?wc @ [Delete_one ''id'' (Str event_id)]" "redis ws = redis ?wc"
      "faults ?wc = [] \<and> find (matches ''id'' (Str event_id)) (events_collection ?wc) = None
         \<longrightarrow> rs = Inr 0 \<and> events_collection ws = events_collection ?wc"
    using delete_one_shape [of "''id''" "Str event_id" ?wc] by blast
  show ?thesis
  proof (cases "ObjectId L event_id")
    case N: None
    show ?thesis
      using None N s ss c
      by (cases rs)
         (auto simp: delete_event_eq made_def not_found_def by_string_def fun_upd_idem)
  next
    case (Some oid)
    obtain rn wn where n: "delete_one ''_id'' (Oid oid) ?wc = (rn, wn)"
      and ns: "calls wn = calls ?wc @ [Delete_one ''_id'' (Oid oid)]" "redis wn = redis ?wc"
        "faults ?wc = [] \<and> find (matches ''_id'' (Oid oid)) (events_collection ?wc) = None
           \<longrightarrow> rn = Inr 0 \<and> events_collection wn = events_collection ?wc"
      using delete_one_shape [of "''_id''" "Oid oid" ?wc] by blast
    obtain rt wt where t: "delete_one ''id'' (Str event_id) wn = (rt, wt)"
      and ts: "calls wt = calls wn @ [Delete_one ''id'' (Str event_id)]" "redis wt = redis wn"
      using delete_one_shape [of "''id''" "Str event_id" wn] by blast
    show ?thesis
    proof (cases rn)
      case (Inl e)
      with n have "raised (faults ?wc) \<noteq> None"
        by (auto simp: delete_one_eq split: option.splits)
      then have "faults w \<noteq> []" by auto
      with None Some Inl n t ts ns c show ?thesis
        by (cases rt) (auto simp: delete_event_eq made_def)
    next
      case (Inr k)
      with None Some n ns c show ?thesis
        by (auto simp: delete_event_eq made_def not_found_def by_native_def fun_upd_idem)
    qed
  qed
qed


theorem delete_event_invalidates_first_witness:
  "faults sample_world = [] \<and>
   by_native sample_library ''6'' (events_collection sample_world) = None \<and>
   by_string ''6'' (events_collection sample_world) = None \<and>
   redis sample_world (cache_key_of ''6'') = None \<and>
   (\<exists>w' cs. delete_event sample_library ''6'' sample_world =
        (Inl (HTTPException 404 ''Event with id 6 not found''), w') \<and>
      made sample_world w' = Redis_delete (cache_key_of ''6'') # cs \<and>
      redis w' = redis sample_world \<and>
      events_collection w' = events_collection sample_world) \<and>
   raised (faults cached_world) = None \<and>
   redis cached_world (cache_key_of ''5'') \<noteq> None \<and>
   (\<exists>r w'. delete_event sample_library ''5'' cached_world = (r, w') \<and>
      redis w' (cache_key_of ''5'') = None)"
proof -
  have h: "faults sample_world = []"
    "by_native sample_library ''6'' (events_collection sample_world) = None"
    "by_string ''6'' (events_collection sample_world) = None"
    "redis sample_world (cache_key_of ''6'') = None"
    by (simp_all add: sample_world_def by_native_def by_string_def matches_def
          sample_record_def sample_library_def)
  have c: "raised (faults cached_world) = None"
    "redis cached_world (cache_key_of ''5'') \<noteq> None"
    by (simp_all add: cached_world_def)
  have a: "\<exists>w' cs. delete_event sample_library ''6'' sample_world =
        (Inl (HTTPException 404 ''Event with id 6 not found''), w') \<and>
      made sample_world w' = Redis_delete (cache_key_of ''6'') # cs \<and>
      redis w' = redis sample_world \<and>
      events_collection w' = events_collection sample_world"
    using delete_event_invalidates_first [of sample_library "''6''" sample_world] h
    by auto
  have b: "\<exists>r w'. delete_event sample_library ''5'' cached_world = (r, w') \<and>
      redis w' (cache_key_of ''5'') = None"
    using delete_event_invalidates_first [of sample_library "''5''" cached_world] c
    by auto
  from h c a b show ?thesis by simp
qed

text \<open>
  The calls that \<open>delete_event\<close> sends to the store once Redis has taken the
  deletion of the key: the deletion by the string field follows the deletion
  by \<open>_id\<close> when that one raises, and replaces it when the constructor refuses
  the identifier.
\<close>

lemma delete_event_store_calls:
  assumes "raised (faults w) = None"
  shows "filter store_call (made w (snd (delete_event L event_id w))) =
    (case ObjectId L event_id of
       None \<Rightarrow> [Delete_one ''id'' (Str event_id)]
     | Some oid \<Rightarrow>
         (case raised (tl (faults w)) of
            None \<Rightarrow> [Delete_one ''_id'' (Oid oid)]
          | Some m \<Rightarrow> [Delete_one ''_id'' (Oid oid), Delete_one ''id'' (Str event_id)]))"
  using assms
  by (auto simp: delete_event_eq delete_one_eq made_def Let_def
           split: option.splits sum.splits prod.splits)


text \<open>
  C5. \<open>delete_event\<close> on an identifier that has the form of an object
  identifier, in a collection whose one record carries that identifier in its
  string field \<open>id\<close> and another \<open>_id\<close>: \<open>get_event\<close> finds the record
  through the string field, while \<open>delete_event\<close> sends the deletion by \<open>_id\<close>
  alone, which removes nothing, and fails with the 404 exception. The record
  stays in the collection.
\<close>

theorem delete_event_no_string_fallback:
  "by_string ''aaaaaaaaaaaaaaaaaaaaaaaa'' (events_collection shadowed_world) =
     Some shadowed_record \<and>
   by_native sample_library ''aaaaaaaaaaaaaaaaaaaaaaaa'' (events_collection shadowed_world) =
     None \<and>
   (\<exists>e w'. get_event sample_library ''aaaaaaaaaaaaaaaaaaaaaaaa'' shadowed_world = (Inr e, w') \<and>
      title e = ''Marathon 2025'') \<and>
   delete_event sample_library ''aaaaaaaaaaaaaaaaaaaaaaaa'' shadowed_world =
     (Inl (HTTPException 404 ''Event with id aaaaaaaaaaaaaaaaaaaaaaaa not found''),
      shadowed_world\<lparr>calls := [Redis_delete (cache_key_of ''aaaaaaaaaaaaaaaaaaaaaaaa''),
                                Delete_one ''_id'' (Oid ''aaaaaaaaaaaaaaaaaaaaaaaa'')]\<rparr>)"
proof -
  let ?i = "''aaaaaaaaaaaaaaaaaaaaaaaa''"
  let ?wr = "after (Redis_get (cache_key_of ?i)) shadowed_world"
  have o: "ObjectId sample_library ?i = Some ?i"
    by (simp add: sample_library_def hexdigit_def lower_def)
  have s: "by_string ?i (events_collection shadowed_world) = Some shadowed_record"
    by (simp add: by_string_def shadowed_world_def shadowed_record_def matches_def)
  have n: "by_native sample_library ?i (events_collection shadowed_world) = None"
    by (simp add: by_native_def o shadowed_world_def shadowed_record_def matches_def)
  have f: "faults shadowed_world = []" by (simp add: shadowed_world_def)
  have r: "redis_get (cache_key_of ?i) shadowed_world = (Inr None, ?wr)"
    by (simp add: redis_get_eq live_def shadowed_world_def)
  have fr: "faults ?wr = []" "events_collection ?wr = events_collection shadowed_world"
    using f by simp_all
  obtain ws where l: "lookup sample_library ?i ?wr = (Inr (Some shadowed_record), ws)"
    and fs: "faults ws = []"
    using lookup_no_faults [OF fr(1), of sample_library ?i] unfolding fr(2) n s by auto
  obtain e where e: "Event_of (normalize_record sample_library shadowed_record) = Inr e"
    and t: "title e = ''Marathon 2025''"
    by (simp add: normalize_record_def shadowed_record_def Event_of_def)
  from fs have "raised (faults ws) = None" by simp
  from get_event_miss_found [OF r _ l e this] t
  have g: "\<exists>e w'. get_event sample_library ?i shadowed_world = (Inr e, w') \<and>
      title e = ''Marathon 2025''"
    by simp
  have d: "delete_event sample_library ?i shadowed_world =
     (Inl (HTTPException 404 ''Event with id aaaaaaaaaaaaaaaaaaaaaaaa not found''),
      shadowed_world\<lparr>calls := [Redis_delete (cache_key_of ?i),
                                Delete_one ''_id'' (Oid ?i)]\<rparr>)"
    by (simp add: delete_event_eq delete_one_eq o shadowed_world_def shadowed_record_def
        matches_def not_found_def after_def)
  from s n g d show ?thesis by simp
qed

section \<open>Creation\<close>

lemma map_of_append_key:
  "map_of (xs @ ys) k = (case map_of xs k of None \<Rightarrow> map_of ys k | Some v \<Rightarrow> Some v)"
  by (simp add: map_add_def)

lemma live_eq: "redis w' = redis w \<Longrightarrow> clock w' = clock w \<Longrightarrow> live w' k = live w k"
  by (simp add: live_def split: option.splits prod.splits)

lemma find_snoc: "find P xs = None \<Longrightarrow> P y \<Longrightarrow> find P (xs @ [y]) = Some y"
  by (induction xs) (auto split: if_splits)

lemma insert_one_fresh:
  assumes "map_of d ''_id'' = None"
    and "faults w = []"
    and "find (matches ''_id'' (Oid (ObjectId_new L (generated w)))) (events_collection w) = None"
  shows "insert_one L d w =
     (Inr (Oid (ObjectId_new L (generated w)), d @ [(''_id'', Oid (ObjectId_new L (generated w)))]),
      (after (Insert_one (d @ [(''_id'', Oid (ObjectId_new L (generated w)))]))
         (w\<lparr>generated := Suc (generated w)\<rparr>))
        \<lparr>events_collection :=
           events_collection w @ [d @ [(''_id'', Oid (ObjectId_new L (generated w)))]]\<rparr>)"
  using assms
  by (simp add: insert_one_def driver_def map_of_append_key after_def del: map_of_append)

lemma map_of_new_record:
  "map_of (new_record L event w) ''_id'' = Some (Oid (ObjectId_new L (generated w)))"
  "map_of (new_record L event w) ''created_at'' = Some (Str (isoformat L (clock w)))"
  "map_of (new_record L event w) ''title'' = Some (Str (title event))"
  "map_of (new_record L event w) ''description'' = Some (Str (description event))"
  "map_of (new_record L event w) ''date'' = Some (Str (date event))"
  "map_of (new_record L event w) ''location'' = Some (Str (location event))"
  "map_of (new_record L event w) ''category'' = Some (of_json (category event))"
  "map_of (new_record L event w) ''organizer'' = Some (of_json (organizer event))"
  by (simp_all add: new_record_def model_dump_create_def map_of_append_key update_conv'
        del: map_of_append)

lemma Event_of_new_record:
  "Event_of (AList.update ''id'' (Str (ObjectId_str L (ObjectId_new L (generated w))))
       (new_record L event w)) = Inr (created L event w)"
  "Event_of (normalize_record L (new_record L event w)) = Inr (created L event w)"
  by (simp_all add: Event_of_def normalize_record_def update_conv' delete_conv'
        map_of_new_record created_def)

lemma create_event_fresh:
  assumes "faults w = []"
    and "find (matches ''_id'' (Oid (ObjectId_new L (generated w)))) (events_collection w) = None"
  shows "create_event L event w =
     (Inr (created L event w),
      (after (Insert_one (new_record L event w)) (w\<lparr>generated := Suc (generated w)\<rparr>))
        \<lparr>events_collection := events_collection w @ [new_record L event w]\<rparr>)"
proof -
  have "map_of (AList.update ''created_at'' (Str (isoformat L (clock w)))
          (model_dump_create event :: 'a document)) ''_id'' = None"
    by (simp add: update_conv' model_dump_create_def)
  from insert_one_fresh [OF this assms] assms show ?thesis
    by (simp add: create_event_def Let_def Event_of_new_record(1) [unfolded new_record_def]
          new_record_def)
qed

text \<open>
  C7. With both services reachable and a generated object identifier that the
  collection does not hold yet, \<open>create_event\<close> succeeds on every input: it
  appends one record, which carries the creation time read from the clock, and
  leaves Redis as it is. The event it returns has the fields of the input and
  a non-empty identifier, and \<open>get_event\<close> with that identifier then returns
  the same event, given that the constructor reads an object identifier back
  from its \<open>str\<close> and refuses the empty string, and that Redis holds nothing
  readable under the key of the new identifier.
\<close>

theorem create_then_get:
  assumes "faults w = []"
    and "find (matches ''_id'' (Oid (ObjectId_new L (generated w)))) (events_collection w) = None"
    and "ObjectId L (ObjectId_str L (ObjectId_new L (generated w))) = Some (ObjectId_new L (generated w))"
    and "ObjectId L [] = None"
    and "\<not> truthy_text (live w (cache_key_of (ObjectId_str L (ObjectId_new L (generated w)))))"
  shows "\<exists>e w'. create_event L event w = (Inr e, w') \<and>
           events_collection w' = events_collection w @ [new_record L event w] \<and>
           map_of (new_record L event w) ''created_at'' = Some (Str (isoformat L (clock w))) \<and>
           redis w' = redis w \<and>
           title e = title event \<and> description e = description event \<and>
           date e = date event \<and> location e = location event \<and>
           category e = category event \<and> organizer e = organizer event \<and>
           ident e = ObjectId_str L (ObjectId_new L (generated w)) \<and> ident e \<noteq> [] \<and>
           (\<exists>w''. get_event L (ident e) w' = (Inr e, w''))"
proof -
  let ?rec = "new_record L event w"
  let ?e = "created L event w"
  let ?w' = "(after (Insert_one ?rec) (w\<lparr>generated := Suc (generated w)\<rparr>))
        \<lparr>events_collection := events_collection w @ [?rec]\<rparr>"
  let ?k = "cache_key_of (ident ?e)"
  have c: "create_event L event w = (Inr ?e, ?w')"
    using assms(1,2) by (rule create_event_fresh)
  have i: "ident ?e = ObjectId_str L (ObjectId_new L (generated w))" by (simp add: created_def)
  have ne: "ident ?e \<noteq> []" using assms(3,4) i by auto
  have f: "faults ?w' = []" using assms(1) by simp
  have "live ?w' ?k = live w ?k" by (rule live_eq) simp_all
  then have g: "redis_get ?k ?w' = (Inr (live w ?k), after (Redis_get ?k) ?w')"
    using f by (simp add: redis_get_eq)
  have m: "\<not> truthy_text (live w ?k)" using assms(5) i by simp
  have fr: "faults (after (Redis_get ?k) ?w') = []"
    "events_collection (after (Redis_get ?k) ?w') = events_collection w @ [?rec]"
    using f by simp_all
  have n: "by_native L (ident ?e) (events_collection w @ [?rec]) = Some ?rec"
    using assms(2,3) i
    by (simp add: by_native_def find_snoc matches_def map_of_new_record)
  obtain ws where l: "lookup L (ident ?e) (after (Redis_get ?k) ?w') = (Inr (Some ?rec), ws)"
      and fs: "faults ws = []"
    using lookup_no_faults [OF fr(1), of L "ident ?e"] n unfolding fr(2) by auto
  then have rf: "raised (faults ws) = None" by simp
  from get_event_miss_found [OF g m l Event_of_new_record(2) rf]
  have "\<exists>w''. get_event L (ident ?e) ?w' = (Inr ?e, w'')" by simp
  with c i ne show ?thesis
    by (simp add: map_of_new_record created_def)
qed


lemma hex_24_0: "hex 24 0 = ''000000000000000000000000''"
  by code_simp

lemma sample_new:
  "ObjectId_new sample_library (generated sample_world) = ''000000000000000000000000''"
  by (simp add: sample_library_def sample_world_def hex_24_0)

lemma sample_ObjectId_new:
  "ObjectId sample_library ''000000000000000000000000'' = Some ''000000000000000000000000''"
  "ObjectId sample_library [] = None"
  "ObjectId_str sample_library x = x"
  by (simp_all add: sample_library_def hexdigit_def lower_def)

theorem create_then_get_witness:
  "faults sample_world = [] \<and>
   find (matches ''_id'' (Oid (ObjectId_new sample_library (generated sample_world))))
     (events_collection sample_world) = None \<and>
   ObjectId sample_library
     (ObjectId_str sample_library (ObjectId_new sample_library (generated sample_world))) =
     Some (ObjectId_new sample_library (generated sample_world)) \<and>
   ObjectId sample_library [] = None \<and>
   \<not> truthy_text (live sample_world (cache_key_of
       (ObjectId_str sample_library (ObjectId_new sample_library (generated sample_world))))) \<and>
   (\<exists>e w'. create_event sample_library sample_create sample_world = (Inr e, w') \<and>
      title e = ''Music Festival'' \<and> organizer e = None \<and>
      ident e = ''000000000000000000000000'' \<and>
      (\<exists>w''. get_event sample_library ''000000000000000000000000'' w' = (Inr e, w'')))"
proof -
  have h1: "faults sample_world = []"
    by (simp add: sample_world_def)
  have h2: "find (matches ''_id'' (Oid (ObjectId_new sample_library (generated sample_world))))
       (events_collection sample_world) = None"
    unfolding sample_new
    by (simp add: sample_world_def sample_record_def matches_def)
  have h3: "ObjectId sample_library
       (ObjectId_str sample_library (ObjectId_new sample_library (generated sample_world))) =
       Some (ObjectId_new sample_library (generated sample_world))"
    unfolding sample_new by (simp add: sample_ObjectId_new)
  have h5: "\<not> truthy_text (live sample_world (cache_key_of
       (ObjectId_str sample_library (ObjectId_new sample_library (generated sample_world)))))"
    by (simp add: sample_world_def live_def)
  from create_then_get [OF h1 h2 h3 sample_ObjectId_new(2) h5, of sample_create]
  obtain e w' where a: "create_event sample_library sample_create sample_world = (Inr e, w')"
    "title e = title sample_create" "organizer e = organizer sample_create"
    "ident e = ObjectId_str sample_library (ObjectId_new sample_library (generated sample_world))"
    "\<exists>w''. get_event sample_library (ident e) w' = (Inr e, w'')"
    by blast
  from a(4) have i: "ident e = ''000000000000000000000000''"
    unfolding sample_new by (simp add: sample_ObjectId_new)
  from a(2,3) have t: "title e = ''Music Festival''" "organizer e = None"
    by (simp_all add: sample_create_def)
  from a(1) a(5) i t have "\<exists>e w'. create_event sample_library sample_create sample_world = (Inr e, w') \<and>
      title e = ''Music Festival'' \<and> organizer e = None \<and>
      ident e = ''000000000000000000000000'' \<and>
      (\<exists>w''. get_event sample_library ''000000000000000000000000'' w' = (Inr e, w''))"
    by auto
  with h1 h2 h3 sample_ObjectId_new(2) h5 show ?thesis by blast
qed

section \<open>The health check\<close>

text \<open>
  C8. \<open>health_check\<close> never fails. It pings Redis and then MongoDB whatever the
  first ping did, reports each as \<open>connected\<close> or as \<open>disconnected:\<close> followed by
  the text of the exception, and returns the report: no exception of either
  ping reaches the caller.
\<close>

theorem health_check_never_fails:
  "health_check w =
     (Inr [(''status'', ''healthy''),
           (''redis'', case raised (faults w) of
                         Some m \<Rightarrow> ''disconnected: '' @ m | None \<Rightarrow> ''connected''),
           (''mongodb'', case raised (tl (faults w)) of
                           Some m \<Rightarrow> ''disconnected: '' @ m | None \<Rightarrow> ''connected'')],
      after Db_ping (after Redis_ping w))"
  by (simp add: health_check_def redis_ping_def db_command_ping_def driver_def
           split: option.splits)

theorem health_check_never_fails_witness:
  "fst (health_check (sample_world\<lparr>faults := [Some ''refused'', None]\<rparr>)) =
     Inr [(''status'', ''healthy''), (''redis'', ''disconnected: refused''),
          (''mongodb'', ''connected'')] \<and>
   made (sample_world\<lparr>faults := [Some ''refused'', None]\<rparr>)
        (snd (health_check (sample_world\<lparr>faults := [Some ''refused'', None]\<rparr>))) =
     [Redis_ping, Db_ping]"
  using health_check_never_fails [of "sample_world\<lparr>faults := [Some ''refused'', None]\<rparr>"]
  by (simp add: made_def)

text \<open>
  C10. The report of \<open>health_check\<close> carries \<open>status\<close> equal to \<open>healthy\<close>
  whatever the two pings did, also when both services are reported
  disconnected.
\<close>

theorem health_check_status_healthy:
  "\<exists>body w'. health_check w = (Inr body, w') \<and> map_of body ''status'' = Some ''healthy''"
  by (simp add: health_check_def redis_ping_def db_command_ping_def driver_def
           split: option.splits prod.splits)

theorem health_check_status_healthy_witness:
  "\<exists>body w'.
     health_check (sample_world\<lparr>faults := [Some ''refused'', Some ''timeout'']\<rparr>) = (Inr body, w') \<and>
     map_of body ''redis'' = Some ''disconnected: refused'' \<and>
     map_of body ''mongodb'' = Some ''disconnected: timeout'' \<and>
     map_of body ''status'' = Some ''healthy''"
  using health_check_status_healthy [of "sample_world\<lparr>faults := [Some ''refused'', Some ''timeout'']\<rparr>"]
  by (auto simp: health_check_def redis_ping_def db_command_ping_def driver_def)

end
